theory Spec2Isabelle
  imports Complex_Main
begin

section \<open>Python values, exceptions and the external collaborators\<close>

text \<open>
  A Python float is NaN, an infinity, or a finite double, carried here by its exact
  rational value (every double is a rational; the theorems below quantify over all
  rationals and so cover every double).
\<close>

datatype pyfloat = Finite rat | PosInf | NegInf | NaN

text \<open>
  The values \<open>request.get_json()\<close> and \<open>json.loads\<close> produce. A \<open>str\<close> is a
  \<open>string\<close>, one \<open>char\<close> for each code point below 256; a \<open>dict\<close> is an
  association list with distinct keys, read with \<open>map_of\<close>.
\<close>

datatype pyval =
    PNone
  | PBool bool
  | PInt int
  | PFloat pyfloat
  | PStr string
  | PList "pyval list"
  | PDict "(string \<times> pyval) list"

text \<open>
  The exceptions of the pipeline. All of them are subclasses of \<open>Exception\<close>, so the
  handler \<open>except Exception\<close> of \<open>report\<close> catches every value of this type;
  \<open>JSONDecodeError\<close> is what \<open>except json.JSONDecodeError\<close> catches.
  \<open>OtherError\<close> stands for any further exception of a library (transport,
  authentication, provider, driver), with its message.
\<close>

datatype exn =
    KeyError string
  | TypeError
  | ValueError
  | OverflowError
  | IndexError
  | AttributeError
  | JSONDecodeError
  | IntegrityError
  | OtherError string

text \<open>
  The row class \<open>Data\<close> of \<open>App/model.py\<close>, column by column. \<open>Confid\<close> holds the
  value the handler binds, which is the parsed \<open>confidence\<close> as it is; \<open>id\<close> is
  renamed \<open>id_col\<close>, \<open>Time\<close> is the server-side timestamp.
\<close>

record Data =
  id_col :: int
  Temp :: int
  Humid :: int
  Proxy :: int
  Resp :: string
  Sugg :: string
  Confid :: pyval
  Time :: nat

text \<open>
  What the code calls and this repository does not define, during one request:
  \<^item> \<open>float_int\<close>, \<open>float_str\<close>: \<open>float(x)\<close> on an \<open>int\<close> (\<open>None\<close> is OverflowError)
    and on a \<open>str\<close> (\<open>None\<close> is ValueError);
  \<^item> \<open>int_str\<close>: \<open>int(x)\<close> on a \<open>str\<close> (\<open>None\<close> is ValueError);
  \<^item> \<open>round2\<close>: \<open>round(x, 2)\<close> on a float;
  \<^item> \<open>prompt_format\<close>: \<open>prompt.format(Temp=, Humid=, Proxy=)\<close> of the module-level
    \<open>PromptTemplate\<close> built from \<open>PROMPT_TEMPLATE\<close> (the properties of the pipeline
    hold for every formatter; \<open>PromptTemplate_format\<close> below is the one of Python's
    format strings);
  \<^item> \<open>llm_invoke\<close>: \<open>llm.invoke\<close>;
  \<^item> \<open>json_loads\<close>: \<open>json.loads\<close>;
  \<^item> \<open>db_reject\<close>: the exception with which the database driver refuses a row at
    commit, if it does;
  \<^item> \<open>db_now\<close>: the server default \<open>func.now()\<close>.
\<close>

record env =
  float_int :: "int \<Rightarrow> pyfloat option"
  float_str :: "string \<Rightarrow> pyfloat option"
  int_str :: "string \<Rightarrow> int option"
  round2 :: "pyfloat \<Rightarrow> pyfloat"
  prompt_format :: "pyfloat \<Rightarrow> pyfloat \<Rightarrow> pyfloat \<Rightarrow> exn + string"
  llm_invoke :: "string \<Rightarrow> exn + string"
  json_loads :: "string \<Rightarrow> exn + pyval"
  db_reject :: "Data \<Rightarrow> exn option"
  db_now :: nat

section \<open>Built-in operations the code applies\<close>

text \<open>\<open>float(v)\<close>.\<close>

definition py_float :: "env \<Rightarrow> pyval \<Rightarrow> exn + pyfloat" where
  "py_float env v =
     (case v of
        PNone \<Rightarrow> Inl TypeError
      | PBool b \<Rightarrow> Inr (Finite (if b then 1 else 0))
      | PInt i \<Rightarrow> (case float_int env i of None \<Rightarrow> Inl OverflowError | Some f \<Rightarrow> Inr f)
      | PFloat f \<Rightarrow> Inr f
      | PStr s \<Rightarrow> (case float_str env s of None \<Rightarrow> Inl ValueError | Some f \<Rightarrow> Inr f)
      | PList xs \<Rightarrow> Inl TypeError
      | PDict kvs \<Rightarrow> Inl TypeError)"

text \<open>Truncation toward zero, as \<open>int\<close> does on a finite float.\<close>

definition trunc :: "rat \<Rightarrow> int" where
  "trunc r = (if 0 \<le> r then \<lfloor>r\<rfloor> else - \<lfloor>- r\<rfloor>)"

text \<open>\<open>int(v)\<close>.\<close>

definition py_int :: "env \<Rightarrow> pyval \<Rightarrow> exn + int" where
  "py_int env v =
     (case v of
        PNone \<Rightarrow> Inl TypeError
      | PBool b \<Rightarrow> Inr (if b then 1 else 0)
      | PInt i \<Rightarrow> Inr i
      | PFloat f \<Rightarrow>
          (case f of
             Finite r \<Rightarrow> Inr (trunc r)
           | PosInf \<Rightarrow> Inl OverflowError
           | NegInf \<Rightarrow> Inl OverflowError
           | NaN \<Rightarrow> Inl ValueError)
      | PStr s \<Rightarrow> (case int_str env s of None \<Rightarrow> Inl ValueError | Some i \<Rightarrow> Inr i)
      | PList xs \<Rightarrow> Inl TypeError
      | PDict kvs \<Rightarrow> Inl TypeError)"

text \<open>\<open>v[k]\<close> for a string key \<open>k\<close>.\<close>

definition py_getitem :: "pyval \<Rightarrow> string \<Rightarrow> exn + pyval" where
  "py_getitem v k =
     (case v of
        PDict kvs \<Rightarrow> (case map_of kvs k of None \<Rightarrow> Inl (KeyError k) | Some x \<Rightarrow> Inr x)
      | _ \<Rightarrow> Inl TypeError)"

text \<open>
  \<open>str.strip()\<close>: the code points below 256 that \<open>str.isspace\<close> accepts are
  9 to 13, 28 to 32, 133 and 160.
\<close>

definition isspace :: "char \<Rightarrow> bool" where
  "isspace c =
     (let n = (of_char c :: nat)
      in (9 \<le> n \<and> n \<le> 13) \<or> (28 \<le> n \<and> n \<le> 32) \<or> n = 133 \<or> n = 160)"

definition strip :: "string \<Rightarrow> string" where
  "strip s = rev (dropWhile isspace (rev (dropWhile isspace s)))"

text \<open>\<open>v.strip()\<close>: only a \<open>str\<close> has the method.\<close>

definition py_strip :: "pyval \<Rightarrow> exn + string" where
  "py_strip v = (case v of PStr s \<Rightarrow> Inr (strip s) | _ \<Rightarrow> Inl AttributeError)"

section \<open>\<open>AI/agent.py\<close>: report\<close>

text \<open>
  The three conversions and the formatting stand before the \<open>try\<close>; the invocation
  and \<open>json.loads\<close> stand inside it. Both the branch after a successful parse and the
  handler of \<open>JSONDecodeError\<close> return \<open>resp\<close>.
\<close>

definition report :: "env \<Rightarrow> pyval \<Rightarrow> pyval \<Rightarrow> pyval \<Rightarrow> exn + string" where
  "report env temp humid proxy =
     (case py_float env temp of Inl e \<Rightarrow> Inl e | Inr temp' \<Rightarrow>
     (case py_float env humid of Inl e \<Rightarrow> Inl e | Inr humid' \<Rightarrow>
     (case py_float env proxy of Inl e \<Rightarrow> Inl e | Inr proxy' \<Rightarrow>
     (case prompt_format env (round2 env temp') (round2 env humid') (round2 env proxy') of
        Inl e \<Rightarrow> Inl e
      | Inr prompt' \<Rightarrow>
          (case llm_invoke env prompt' of
             Inl e \<Rightarrow> Inr ''Error.''
           | Inr resp \<Rightarrow>
               (case json_loads env resp of
                  Inr parsed \<Rightarrow> Inr resp
                | Inl e \<Rightarrow> if e = JSONDecodeError then Inr resp else Inr ''Error.''))))))"

text \<open>The prompt \<open>report\<close> sends, when the code reaches the invocation.\<close>

definition report_prompt :: "env \<Rightarrow> pyval \<Rightarrow> pyval \<Rightarrow> pyval \<Rightarrow> exn + string" where
  "report_prompt env temp humid proxy =
     (case py_float env temp of Inl e \<Rightarrow> Inl e | Inr temp' \<Rightarrow>
     (case py_float env humid of Inl e \<Rightarrow> Inl e | Inr humid' \<Rightarrow>
     (case py_float env proxy of Inl e \<Rightarrow> Inl e | Inr proxy' \<Rightarrow>
        prompt_format env (round2 env temp') (round2 env humid') (round2 env proxy'))))"

section \<open>The reading store\<close>

text \<open>
  The table is the list of its rows in insertion order. The integer primary key is
  assigned by the database: 1 in an empty table, one more than the greatest key
  otherwise.
\<close>

definition next_id :: "Data list \<Rightarrow> int" where
  "next_id rows = (if rows = [] then 1 else Max (set (map id_col rows)) + 1)"

text \<open>
  \<open>Data(...)\<close>, \<open>db.session.add\<close> and \<open>db.session.commit\<close>: the row gets its key and
  timestamp and is appended, or the commit raises and the table stays as it was.
  \<open>nullable = False\<close> refuses a NULL \<open>Confid\<close>; the other five arguments are never
  \<open>None\<close>.
\<close>

definition add_commit ::
  "env \<Rightarrow> Data list \<Rightarrow> int \<Rightarrow> int \<Rightarrow> int \<Rightarrow> string \<Rightarrow> string \<Rightarrow> pyval \<Rightarrow> exn + (Data list \<times> Data)" where
  "add_commit env rows t h p text recommendation confidence =
     (let data' = \<lparr>id_col = next_id rows, Temp = t, Humid = h, Proxy = p, Resp = text,
                    Sugg = recommendation, Confid = confidence, Time = db_now env\<rparr>
      in if confidence = PNone then Inl IntegrityError
         else case db_reject env data' of
                Some e \<Rightarrow> Inl e
              | None \<Rightarrow> Inr (rows @ [data'], data'))"

text \<open>\<open>Data.query.order_by(Data.id.desc())\<close>, then \<open>.first()\<close> and \<open>.limit(n).all()\<close>.\<close>

definition order_by_id_desc :: "Data list \<Rightarrow> Data list" where
  "order_by_id_desc rows = rev (sort_key id_col rows)"

definition latest :: "Data list \<Rightarrow> Data option" where
  "latest rows = (case order_by_id_desc rows of [] \<Rightarrow> None | r # rs \<Rightarrow> Some r)"

definition listRecent :: "nat \<Rightarrow> Data list \<Rightarrow> Data list" where
  "listRecent n rows = take n (order_by_id_desc rows)"

text \<open>The primary key: no two rows share an \<open>id\<close>.\<close>

definition primary_key :: "Data list \<Rightarrow> bool" where
  "primary_key rows = distinct (map id_col rows)"

section \<open>\<open>app.py\<close>: the two routes\<close>

text \<open>
  \<open>index\<close> runs two queries and hands the latest row and the 20 most recent rows to
  the template; the table after the request is the table before it.
\<close>

definition index :: "Data list \<Rightarrow> Data list \<times> (Data option \<times> Data list)" where
  "index rows = (rows, (latest rows, listRecent 20 rows))"

text \<open>
  \<open>data\<close>, on the table and the parsed request body: the table after the request, and
  either the exception that left the handler or the JSON payload with its status code.
\<close>

definition data :: "env \<Rightarrow> Data list \<Rightarrow> pyval \<Rightarrow> Data list \<times> (exn + pyval \<times> nat)" where
  "data env rows body =
     (case py_getitem body ''Temp'' of Inl e \<Rightarrow> (rows, Inl e) | Inr temp \<Rightarrow>
     (case py_getitem body ''Humid'' of Inl e \<Rightarrow> (rows, Inl e) | Inr humid \<Rightarrow>
     (case py_getitem body ''Proxy'' of Inl e \<Rightarrow> (rows, Inl e) | Inr proxy \<Rightarrow>
     (case report env temp humid proxy of Inl e \<Rightarrow> (rows, Inl e) | Inr response \<Rightarrow>
     (case json_loads env response of Inl e \<Rightarrow> (rows, Inl e) | Inr parsed_resp \<Rightarrow>
     (case py_getitem parsed_resp ''text'' of Inl e \<Rightarrow> (rows, Inl e) | Inr text_v \<Rightarrow>
     (case py_strip text_v of Inl e \<Rightarrow> (rows, Inl e) | Inr text \<Rightarrow>
     (case py_getitem parsed_resp ''recommendation'' of Inl e \<Rightarrow> (rows, Inl e) | Inr rec_v \<Rightarrow>
     (case py_strip rec_v of Inl e \<Rightarrow> (rows, Inl e) | Inr recommendation \<Rightarrow>
     (case py_getitem parsed_resp ''confidence'' of Inl e \<Rightarrow> (rows, Inl e) | Inr confidence \<Rightarrow>
     (case py_int env temp of Inl e \<Rightarrow> (rows, Inl e) | Inr t \<Rightarrow>
     (case py_int env humid of Inl e \<Rightarrow> (rows, Inl e) | Inr h \<Rightarrow>
     (case py_int env proxy of Inl e \<Rightarrow> (rows, Inl e) | Inr p \<Rightarrow>
     (case add_commit env rows t h p text recommendation confidence of
        Inl e \<Rightarrow> (rows, Inl e)
      | Inr (rows', data') \<Rightarrow>
          (rows',
           Inr (PDict [(''status'', PStr ''ok''), (''id'', PInt (id_col data')),
                       (''Display'', PStr text), (''Sugg'', PStr recommendation),
                       (''Confid'', confidence)], 200))))))))))))))))"

text \<open>
  The status the client sees: the handler's own code, or 500 when an exception leaves
  the handler (none of \<open>exn\<close> is an \<open>HTTPException\<close>).
\<close>

definition http_status :: "exn + pyval \<times> nat \<Rightarrow> nat" where
  "http_status r = (case r of Inl e \<Rightarrow> 500 | Inr (payload, code) \<Rightarrow> code)"




section \<open>\<open>AI/agent.py\<close>: the prompt template and its formatting\<close>

text \<open>
  \<open>prompt.format(Temp=..., Humid=..., Proxy=...)\<close> is the method of a \<open>PromptTemplate\<close>
  built from \<open>PROMPT_TEMPLATE\<close> with the default template format, which is Python's
  format string syntax: \<open>string.Formatter.format\<close> on the template with keyword
  arguments only. The functions below follow that formatter from left to right.

  \<open>scan_name\<close> reads a field name up to \<open>}\<close>, \<open>:\<close> or \<open>!\<close> (a bracketed index hides
  them, an opening brace is an error); \<open>scan_spec\<close> reads a format specification up to
  the closing brace that matches; \<open>parse_field\<close> reads what follows an opening brace:
  name, optional conversion, optional specification.
\<close>

fun scan_name :: "bool \<Rightarrow> string \<Rightarrow> string \<Rightarrow> exn + (string \<times> char \<times> string)" where
  "scan_name in_br acc [] = Inl ValueError"
| "scan_name in_br acc (c # cs) =
     (if in_br then scan_name (c \<noteq> CHR '']'') (c # acc) cs
      else if c = CHR ''{'' then Inl ValueError
      else if c = CHR ''['' then scan_name True (c # acc) cs
      else if c = CHR ''}'' \<or> c = CHR '':'' \<or> c = CHR ''!'' then Inr (rev acc, c, cs)
      else scan_name False (c # acc) cs)"

fun scan_spec :: "nat \<Rightarrow> string \<Rightarrow> string \<Rightarrow> exn + (string \<times> string)" where
  "scan_spec n acc [] = Inl ValueError"
| "scan_spec n acc (c # cs) =
     (if c = CHR ''{'' then scan_spec (Suc n) (c # acc) cs
      else if c = CHR ''}'' then (if n = 1 then Inr (rev acc, cs) else scan_spec (n - 1) (c # acc) cs)
      else scan_spec n (c # acc) cs)"

definition parse_field :: "string \<Rightarrow> exn + (string \<times> char option \<times> string \<times> string)" where
  "parse_field r =
     (case scan_name False [] r of
        Inl e \<Rightarrow> Inl e
      | Inr (name, c, rest) \<Rightarrow>
          if c = CHR ''}'' then Inr (name, None, [], rest)
          else if c = CHR ''!'' then
            (case rest of
               [] \<Rightarrow> Inl ValueError
             | conv # rest2 \<Rightarrow>
                 (case rest2 of
                    [] \<Rightarrow> Inl ValueError
                  | c2 # rest3 \<Rightarrow>
                      if c2 = CHR ''}'' then Inr (name, Some conv, [], rest3)
                      else if c2 = CHR '':'' then
                        (case scan_spec 1 [] rest3 of
                           Inl e \<Rightarrow> Inl e
                         | Inr (spec, rest4) \<Rightarrow> Inr (name, Some conv, spec, rest4))
                      else Inl ValueError))
          else
            (case scan_spec 1 [] rest of
               Inl e \<Rightarrow> Inl e
             | Inr (spec, rest2) \<Rightarrow> Inr (name, None, spec, rest2)))"

text \<open>
  The next piece of a format string: the literal text up to the next brace, then either
  nothing more, or a doubled brace (one brace of literal text), or a replacement field.
  A single closing brace, and an opening brace at the very end, are errors.
\<close>

definition markup_next ::
  "string \<Rightarrow> exn + (string \<times> (string \<times> char option \<times> string) option \<times> string)" where
  "markup_next s =
     (let lit = takeWhile (\<lambda>c. c \<noteq> CHR ''{'' \<and> c \<noteq> CHR ''}'') s
      in case dropWhile (\<lambda>c. c \<noteq> CHR ''{'' \<and> c \<noteq> CHR ''}'') s of
           [] \<Rightarrow> Inr (lit, None, [])
         | c # r \<Rightarrow>
             (case r of
                [] \<Rightarrow> Inl ValueError
              | d # r' \<Rightarrow>
                  if d = c then Inr (lit @ [c], None, r')
                  else if c = CHR ''}'' then Inl ValueError
                  else (case parse_field r of
                          Inl e \<Rightarrow> Inl e
                        | Inr (name, conv, spec, rest) \<Rightarrow> Inr (lit, Some (name, conv, spec), rest))))"

text \<open>
  The value of a field. The name up to the first \<open>.\<close> or \<open>[\<close> is an index into the
  positional arguments when it is a decimal number (and when the name is empty), and
  a key of the keyword arguments otherwise. There are no positional arguments, so an
  index raises IndexError (ValueError when it does not fit 63 bits) and a key that is
  not among the keyword arguments raises KeyError. The rest (attribute and index
  lookups, conversion, expansion of the specification, \<open>format\<close> itself) is the
  parameter \<open>render\<close>.
\<close>

definition is_decimal :: "char \<Rightarrow> bool" where
  "is_decimal c = (48 \<le> (of_char c :: nat) \<and> (of_char c :: nat) \<le> 57)"

definition digits_value :: "string \<Rightarrow> nat" where
  "digits_value ds = foldl (\<lambda>a c. 10 * a + (of_char c - 48)) 0 ds"

definition get_field ::
  "('v \<Rightarrow> string \<Rightarrow> char option \<Rightarrow> string \<Rightarrow> exn + string) \<Rightarrow> (string \<times> 'v) list \<Rightarrow>
   string \<Rightarrow> char option \<Rightarrow> string \<Rightarrow> exn + string" where
  "get_field render kwargs name conv spec =
     (let name' = (if name = [] then ''0'' else name);
          first = takeWhile (\<lambda>c. c \<noteq> CHR ''.'' \<and> c \<noteq> CHR ''['') name';
          rest = dropWhile (\<lambda>c. c \<noteq> CHR ''.'' \<and> c \<noteq> CHR ''['') name'
      in if first \<noteq> [] \<and> list_all is_decimal first
         then (if 2 ^ 63 \<le> digits_value first then Inl ValueError else Inl IndexError)
         else (case map_of kwargs first of
                 None \<Rightarrow> Inl (KeyError first)
               | Some v \<Rightarrow> render v rest conv spec))"

text \<open>
  The formatter: literal text is copied, each field is looked up and rendered as soon as
  it is read, and the first exception ends the formatting.
\<close>

function vformat ::
  "('v \<Rightarrow> string \<Rightarrow> char option \<Rightarrow> string \<Rightarrow> exn + string) \<Rightarrow> (string \<times> 'v) list \<Rightarrow>
   string \<Rightarrow> exn + string" where
  "vformat render kwargs [] = Inr []"
| "vformat render kwargs (c # cs) =
     (case markup_next (c # cs) of
        Inl e \<Rightarrow> Inl e
      | Inr (lit, field, rest) \<Rightarrow>
          (case field of
             None \<Rightarrow>
               (case vformat render kwargs rest of Inl e \<Rightarrow> Inl e | Inr out \<Rightarrow> Inr (lit @ out))
           | Some (name, conv, spec) \<Rightarrow>
               (case get_field render kwargs name conv spec of
                  Inl e \<Rightarrow> Inl e
                | Inr shown \<Rightarrow>
                    (case vformat render kwargs rest of
                       Inl e \<Rightarrow> Inl e
                     | Inr out \<Rightarrow> Inr (lit @ shown @ out)))))"
  by pat_completeness auto
termination vformat
proof -
  have name: "scan_name b acc s = Inr (name, c, rest) \<Longrightarrow> length rest < length s"
    for b acc s name c rest
    by (induction b acc s rule: scan_name.induct) (auto split: if_splits)
  have spec: "scan_spec n acc s = Inr (sp, rest) \<Longrightarrow> length rest < length s"
    for n acc s sp rest
    by (induction n acc s rule: scan_spec.induct) (auto split: if_splits)
  have field: "parse_field r = Inr (name, conv, sp, rest) \<Longrightarrow> length rest < length r"
    for r name conv sp rest
    by (auto simp: parse_field_def split: sum.splits if_splits list.splits dest!: name spec)
  have markup: "markup_next s = Inr (lit, f, rest) \<Longrightarrow> s \<noteq> [] \<Longrightarrow> length rest < length s"
    for s lit f rest
  proof -
    assume m: "markup_next s = Inr (lit, f, rest)" and ne: "s \<noteq> []"
    define r where "r = dropWhile (\<lambda>c. c \<noteq> CHR ''{'' \<and> c \<noteq> CHR ''}'') s"
    have l: "length r \<le> length s" unfolding r_def by (rule length_dropWhile_le)
    have m': "(case r of
                 [] \<Rightarrow> Inr (takeWhile (\<lambda>c. c \<noteq> CHR ''{'' \<and> c \<noteq> CHR ''}'') s, None, [])
               | c # r \<Rightarrow>
                   (case r of
                      [] \<Rightarrow> Inl ValueError
                    | d # r' \<Rightarrow>
                        if d = c
                        then Inr (takeWhile (\<lambda>c. c \<noteq> CHR ''{'' \<and> c \<noteq> CHR ''}'') s @ [c], None, r')
                        else if c = CHR ''}'' then Inl ValueError
                        else (case parse_field r of
                                Inl e \<Rightarrow> Inl e
                              | Inr (name, conv, spec, rest) \<Rightarrow>
                                  Inr (takeWhile (\<lambda>c. c \<noteq> CHR ''{'' \<and> c \<noteq> CHR ''}'') s,
                                       Some (name, conv, spec), rest)))) =
              Inr (lit, f, rest)"
      using m unfolding markup_next_def r_def Let_def .
    show "length rest < length s"
    proof (cases r)
      case Nil
      with m' have "rest = []" by simp
      with ne show ?thesis by simp
    next
      case (Cons c r')
      with m' l show ?thesis
        by (auto split: list.splits if_splits sum.splits dest!: field)
    qed
  qed
  show ?thesis
    by (relation "measure (\<lambda>(render, kwargs, s). length s)") (auto dest!: markup)
qed

text \<open>
  \<open>PROMPT_TEMPLATE\<close>, line by line as the source has it, every line ended by a
  newline. The lines with a brace are cut at the brace. A code point above 255 (there
  are 16, in the dash of instruction 6 and among the emoji of the tone notes and of the
  two examples) is written \<open>CHR 0x3F\<close>; none of them is a character the formatter
  looks at.
\<close>

definition unlines :: "string list \<Rightarrow> string" where
  "unlines ls = concat (map (\<lambda>l. l @ [CHR 0x0A]) ls)"

definition persona_lines :: "string list" where
  "persona_lines =
     ['''',
      ''    You are an advanced environmental intelligence agent: an expert storyteller and analyst who'',
      ''    turns raw sensor inputs into a short, vivid, and useful human-friendly micro-report.'',
      '''',
      ''    INPUTS'',
      ''    -------'']"

definition instruction_lines :: "string list" where
  "instruction_lines =
     ['''',
      ''    INSTRUCTIONS TO THE AGENT'',
      ''    -------------------------'',
      ''        1. Perform your internal reasoning (do not output any chain-of-thought or stepwise reasoning).'',
      ''        2. Produce a concise, high-creativity textual micro-report in natural language (no more than 2(if possible, just a single) short sentences).'',
      ''            - The text should avoid formulas and long technical paragraphs.'',
      ''            - It should sound fresh and human (a little poetic allowed), and you may include 1-2 emojis.'',
      ''        3. Then provide one short, actionable recommendation.'',
      ''        4. At the end provide a numeric confidence score (0-100) representing how certain you are about the interpretation.'',
      ''        5. **Output MUST be valid JSON only** with exactly these keys:'',
      ''            - \"text\": string (the creative micro-report)'',
      ''            - \"recommendation\": string (short actionable sentence)'',
      ''            - \"confidence\": integer (0-100)'',
      ''        6. Do NOT include any extra commentary, delimiters, or markdown '' @ [CHR 0xE2, CHR 0x3F, CHR 0x3F] @ '' only the JSON.'',
      '''',
      ''    CONTEXT / TONE'',
      ''    --------------'',
      ''    - Make the report vivid, helpful, and professional.'',
      ''    - Keep length short: aim for a total of around 1-3 sentences in \"text\".'',
      ''    - Use emojis sparingly to convey tone (e.g., '' @ [CHR 0xF0, CHR 0x3F, CHR 0x3F, CHR 0xA1, CHR 0xEF, CHR 0xB8] @ '', '' @ [CHR 0xF0, CHR 0x3F, CHR 0x3F, CHR 0xA7] @ '', '' @ [CHR 0xF0, CHR 0x3F, CHR 0xA7, CHR 0xAD] @ '', '' @ [CHR 0xE2, CHR 0x3F, CHR 0xA0, CHR 0xEF, CHR 0xB8] @ '').'',
      '''',
      ''    EXAMPLE (not actual output; for style only and format)'']"

definition example_1 :: string where
  "example_1 =
     '' \"Warm breeze rolling in, humidity low enough for crisp air '' @ [CHR 0xE2, CHR 0x3F, CHR 0x3F] @ '' sensors show a mild thermal spike. '' @ [CHR 0xF0, CHR 0x3F, CHR 0x3F, CHR 0xA1, CHR 0xEF, CHR 0xB8] @ ''\", \"recommendation\": \"If outdoors, hydrate and avoid direct sun for 30 minutes.\", \"confidence\": 86''"

definition example_2 :: string where
  "example_2 =
     '' \"The air feels heavy with warmth and dampness, a humid cloak settling around everything '' @ [CHR 0xF0, CHR 0x3F, CHR 0x3F, CHR 0xA1, CHR 0xEF, CHR 0xB8, CHR 0xF0, CHR 0x3F, CHR 0x3F, CHR 0xA7] @ ''\", \"recommendation\": \"Keep hydrated and avoid extended outdoor activity in direct sunlight. \", \"confidence\":\"90\"''"

definition PROMPT_TEMPLATE :: string where
  "PROMPT_TEMPLATE = unlines
     (persona_lines @
      [''    Temperature ('' @ [CHR 0xC2, CHR 0xB0] @ ''C): '' @ ''{Temp}'',
       ''    Humidity (%): '' @ ''{Humid}'',
       ''    Distance/Proxy (meters): '' @ ''{Proxy}''] @
      instruction_lines @
      [''    '' @ ''{\"text\":'' @ example_1 @ ''}'',
       ''    '' @ ''{\"text\":'' @ example_2 @ ''}'',
       '''',
       ''    Now produce JSON for the given inputs.''])"

text \<open>
  \<open>prompt.format(Temp=temp, Humid=humid, Proxy=proxy)\<close>.
\<close>

definition PromptTemplate_format ::
  "(pyfloat \<Rightarrow> string \<Rightarrow> char option \<Rightarrow> string \<Rightarrow> exn + string) \<Rightarrow>
   pyfloat \<Rightarrow> pyfloat \<Rightarrow> pyfloat \<Rightarrow> exn + string" where
  "PromptTemplate_format render temp humid proxy =
     vformat render [(''Temp'', temp), (''Humid'', humid), (''Proxy'', proxy)] PROMPT_TEMPLATE"

text \<open>
  Text without braces, names without the characters that end or structure a field name,
  and a result with literal text put in front.
\<close>

definition brace_free :: "string \<Rightarrow> bool" where
  "brace_free s = list_all (\<lambda>c. c \<noteq> CHR ''{'' \<and> c \<noteq> CHR ''}'') s"

definition plain :: "string \<Rightarrow> bool" where
  "plain s = list_all (\<lambda>c. c \<notin> set ''{[}:!'') s"

definition prepend :: "string \<Rightarrow> exn + string \<Rightarrow> exn + string" where
  "prepend lit r = (case r of Inl e \<Rightarrow> Inl e | Inr out \<Rightarrow> Inr (lit @ out))"

section \<open>A stubbed environment for concrete runs\<close>

text \<open>
  The interpretation client is stubbed as in the end-to-end scenarios: it answers every
  prompt with \<open>reply\<close>, and \<open>json.loads\<close> is given by its value \<open>parsed\<close> on that reply.
  Integers convert to floats exactly, strings are not numbers, and the driver refuses
  nothing.
\<close>

definition stub_env :: "(exn + string) \<Rightarrow> (exn + pyval) \<Rightarrow> env" where
  "stub_env reply parsed =
     \<lparr>float_int = (\<lambda>i. Some (Finite (of_int i))),
      float_str = (\<lambda>s. None),
      int_str = (\<lambda>s. None),
      round2 = (\<lambda>f. f),
      prompt_format = (\<lambda>t h p. Inr ''prompt''),
      llm_invoke = (\<lambda>pr. reply),
      json_loads = (\<lambda>s. if Inr s = reply then parsed else Inl JSONDecodeError),
      db_reject = (\<lambda>row. None),
      db_now = 0\<rparr>"

text \<open>
  End-to-end scenario 1: the body \<open>{"Temp": 25, "Humid": 40, "Proxy": 3}\<close> and a
  client that answers with the JSON text of a mild day.
\<close>

definition body1 :: pyval where
  "body1 = PDict [(''Temp'', PInt 25), (''Humid'', PInt 40), (''Proxy'', PInt 3)]"

definition reply1 :: string where
  "reply1 = ''{\"text\":\"Mild day.\",\"recommendation\":\"Stay hydrated.\",\"confidence\":80}''"

definition parsed1 :: pyval where
  "parsed1 = PDict [(''text'', PStr ''Mild day.''), (''recommendation'', PStr ''Stay hydrated.''),
                    (''confidence'', PInt 80)]"

definition env1 :: env where
  "env1 = stub_env (Inr reply1) (Inr parsed1)"

definition row1 :: Data where
  "row1 = \<lparr>id_col = 1, Temp = 25, Humid = 40, Proxy = 3, Resp = ''Mild day.'',
           Sugg = ''Stay hydrated.'', Confid = PInt 80, Time = 0\<rparr>"








text \<open>
  Scenario 2, the body without \<open>Proxy\<close>; bodies with \<open>null\<close> and with \<open>true\<close> for a
  reading; and a body with fractional readings.
\<close>

definition body_missing :: pyval where
  "body_missing = PDict [(''Temp'', PInt 25), (''Humid'', PInt 40)]"

definition body_null :: pyval where
  "body_null = PDict [(''Temp'', PInt 25), (''Humid'', PInt 40), (''Proxy'', PNone)]"

definition body_bool :: pyval where
  "body_bool = PDict [(''Temp'', PBool True), (''Humid'', PInt 40), (''Proxy'', PInt 3)]"



text \<open>
  A formatter that renders the three readings of scenario 1 as \<open>str\<close> does, and
  scenario 1's environment with \<open>prompt.format\<close> read as \<open>PromptTemplate_format\<close>.
\<close>

definition render_stub :: "pyfloat \<Rightarrow> string \<Rightarrow> char option \<Rightarrow> string \<Rightarrow> exn + string" where
  "render_stub v rest conv spec =
     (if v = Finite 25 then Inr ''25.0''
      else if v = Finite 40 then Inr ''40.0''
      else if v = Finite 3 then Inr ''3.0''
      else Inl (OtherError ''no rendering given''))"

definition env_format :: env where
  "env_format = env1\<lparr>prompt_format := PromptTemplate_format render_stub\<rparr>"

section \<open>Properties of report\<close>

lemma report_prompt_Inl:
  "report_prompt env t h p = Inl e \<Longrightarrow> report env t h p = Inl e"
  by (auto simp: report_prompt_def report_def split: sum.splits)

lemma report_prompt_Inr:
  "report_prompt env t h p = Inr pr \<Longrightarrow>
   report env t h p =
     (case llm_invoke env pr of
        Inl e \<Rightarrow> Inr ''Error.''
      | Inr resp \<Rightarrow>
          (case json_loads env resp of
             Inr parsed \<Rightarrow> Inr resp
           | Inl e \<Rightarrow> if e = JSONDecodeError then Inr resp else Inr ''Error.''))"
  by (auto simp: report_prompt_def report_def split: sum.splits)

lemmas run_simps =
  data_def report_def report_prompt_def py_getitem_def py_float_def py_int_def py_strip_def
  strip_def isspace_def add_commit_def next_id_def stub_env_def http_status_def trunc_def Let_def



text \<open>
  Claim C10. The handler of \<open>report\<close> does not make it total: when \<open>float\<close> raises on
  the first argument that fails to convert, \<open>report\<close> raises that exception (TypeError
  for \<open>None\<close>, ValueError for a string that is no number) and does not return the
  sentinel. Once the prompt has been formatted, nothing is raised any more.
\<close>

theorem report_conversion_failure:
  "(py_float env temp = Inl e \<longrightarrow> report env temp humid proxy = Inl e) \<and>
   (py_float env temp = Inr a \<and> py_float env humid = Inl e \<longrightarrow>
      report env temp humid proxy = Inl e) \<and>
   (py_float env temp = Inr a \<and> py_float env humid = Inr b \<and> py_float env proxy = Inl e \<longrightarrow>
      report env temp humid proxy = Inl e) \<and>
   report env PNone humid proxy = Inl TypeError \<and>
   (float_str env s = None \<longrightarrow> report env (PStr s) humid proxy = Inl ValueError) \<and>
   (report_prompt env temp humid proxy = Inr pr \<longrightarrow>
      (\<exists>out. report env temp humid proxy = Inr out))"
proof -
  have "report_prompt env temp humid proxy = Inr pr \<Longrightarrow>
        \<exists>out. report env temp humid proxy = Inr out"
    by (simp add: report_prompt_Inr split: sum.splits)
  then show ?thesis
    by (simp add: report_def py_float_def)
qed

text \<open>A word for the temperature, and \<open>None\<close> for the humidity or the proximity.\<close>

theorem report_conversion_failure_witness:
  "float_str env1 ''warm'' = None \<and>
   report env1 (PStr ''warm'') (PInt 40) (PInt 3) = Inl ValueError \<and>
   report env1 (PInt 25) PNone (PInt 3) = Inl TypeError \<and>
   report env1 (PInt 25) (PInt 40) PNone = Inl TypeError \<and>
   report env1 (PInt 25) (PInt 40) PNone \<noteq> Inr ''Error.''"
proof -
  have s: "float_str env1 ''warm'' = None"
    by (simp add: env1_def stub_env_def)
  have t: "py_float env1 (PInt 25) = Inr (Finite 25)"
    by (simp add: py_float_def env1_def stub_env_def)
  have h: "py_float env1 (PInt 40) = Inr (Finite 40)"
    by (simp add: py_float_def env1_def stub_env_def)
  have n: "py_float env1 PNone = Inl TypeError"
    by (simp add: py_float_def)
  from report_conversion_failure [of env1 "PInt 25" TypeError PNone "PInt 3" "Finite 25" "Finite 40" "''warm''" "''prompt''"]
       report_conversion_failure [of env1 "PInt 25" TypeError "PInt 40" PNone "Finite 25" "Finite 40" "''warm''" "''prompt''"]
       report_conversion_failure [of env1 "PStr ''warm''" ValueError "PInt 40" "PInt 3" "Finite 25" "Finite 40" "''warm''" "''prompt''"]
       s t h n
  show ?thesis by simp
qed




section \<open>Properties of the request handler\<close>











lemma py_float_Inl:
  "py_float env v = Inl e \<Longrightarrow> e = TypeError \<or> e = ValueError \<or> e = OverflowError"
  by (cases v) (auto simp: py_float_def split: option.splits)

lemma data_missing_field:
  assumes "map_of kvs ''Temp'' = None \<or> map_of kvs ''Humid'' = None \<or> map_of kvs ''Proxy'' = None"
  shows "data env rows (PDict kvs) = (rows, Inl (KeyError ''Temp'')) \<or>
         data env rows (PDict kvs) = (rows, Inl (KeyError ''Humid'')) \<or>
         data env rows (PDict kvs) = (rows, Inl (KeyError ''Proxy''))"
  using assms by (auto simp: data_def py_getitem_def split: option.splits)

lemma data_conversion_failure:
  assumes "map_of kvs ''Temp'' = Some temp" and "map_of kvs ''Humid'' = Some humid"
    and "map_of kvs ''Proxy'' = Some proxy"
    and "py_float env temp = Inl e \<or> py_float env humid = Inl e \<or> py_float env proxy = Inl e"
  shows "data env rows (PDict kvs) = (rows, Inl TypeError) \<or>
         data env rows (PDict kvs) = (rows, Inl ValueError) \<or>
         data env rows (PDict kvs) = (rows, Inl OverflowError)"
proof -
  have "\<exists>e'. report env temp humid proxy = Inl e' \<and>
          (e' = TypeError \<or> e' = ValueError \<or> e' = OverflowError)"
    using assms(4) py_float_Inl [of env temp] py_float_Inl [of env humid] py_float_Inl [of env proxy]
    by (auto simp: report_def split: sum.splits)
  then obtain e' where "report env temp humid proxy = Inl e'"
    and "e' = TypeError \<or> e' = ValueError \<or> e' = OverflowError" by blast
  then show ?thesis
    using assms(1-3) by (auto simp: data_def py_getitem_def)
qed

text \<open>
  Claim C4, amended. When the body lacks one of \<open>Temp\<close>, \<open>Humid\<close>, \<open>Proxy\<close>, the
  handler fails with the KeyError of the first missing key; when all three are there
  and \<open>float\<close> raises on one of them, it fails with that TypeError, ValueError or
  OverflowError. No handler catches either, so the answer has status 500, and the table
  is left as it was.
\<close>

theorem data_invalid_body:
  "(map_of kvs ''Temp'' = None \<or> map_of kvs ''Humid'' = None \<or> map_of kvs ''Proxy'' = None \<longrightarrow>
      (data env rows (PDict kvs) = (rows, Inl (KeyError ''Temp'')) \<or>
       data env rows (PDict kvs) = (rows, Inl (KeyError ''Humid'')) \<or>
       data env rows (PDict kvs) = (rows, Inl (KeyError ''Proxy''))) \<and>
      http_status (snd (data env rows (PDict kvs))) = 500 \<and>
      fst (data env rows (PDict kvs)) = rows) \<and>
   (map_of kvs ''Temp'' = Some temp \<and> map_of kvs ''Humid'' = Some humid \<and>
    map_of kvs ''Proxy'' = Some proxy \<and>
    (py_float env temp = Inl e \<or> py_float env humid = Inl e \<or> py_float env proxy = Inl e) \<longrightarrow>
      (data env rows (PDict kvs) = (rows, Inl TypeError) \<or>
       data env rows (PDict kvs) = (rows, Inl ValueError) \<or>
       data env rows (PDict kvs) = (rows, Inl OverflowError)) \<and>
      http_status (snd (data env rows (PDict kvs))) = 500 \<and>
      fst (data env rows (PDict kvs)) = rows)"
proof (intro conjI impI)
  assume m: "map_of kvs ''Temp'' = None \<or> map_of kvs ''Humid'' = None \<or> map_of kvs ''Proxy'' = None"
  from data_missing_field [OF m, of env rows]
  show "data env rows (PDict kvs) = (rows, Inl (KeyError ''Temp'')) \<or>
        data env rows (PDict kvs) = (rows, Inl (KeyError ''Humid'')) \<or>
        data env rows (PDict kvs) = (rows, Inl (KeyError ''Proxy''))" .
  from data_missing_field [OF m, of env rows]
  show "http_status (snd (data env rows (PDict kvs))) = 500"
    by (auto simp: http_status_def)
  from data_missing_field [OF m, of env rows]
  show "fst (data env rows (PDict kvs)) = rows" by auto
next
  assume c: "map_of kvs ''Temp'' = Some temp \<and> map_of kvs ''Humid'' = Some humid \<and>
    map_of kvs ''Proxy'' = Some proxy \<and>
    (py_float env temp = Inl e \<or> py_float env humid = Inl e \<or> py_float env proxy = Inl e)"
  then have f: "data env rows (PDict kvs) = (rows, Inl TypeError) \<or>
         data env rows (PDict kvs) = (rows, Inl ValueError) \<or>
         data env rows (PDict kvs) = (rows, Inl OverflowError)"
    using data_conversion_failure [of kvs temp humid proxy env e rows] by blast
  then show "data env rows (PDict kvs) = (rows, Inl TypeError) \<or>
         data env rows (PDict kvs) = (rows, Inl ValueError) \<or>
         data env rows (PDict kvs) = (rows, Inl OverflowError)" .
  from f show "http_status (snd (data env rows (PDict kvs))) = 500"
    by (auto simp: http_status_def)
  from f show "fst (data env rows (PDict kvs)) = rows" by auto
qed

text \<open>Scenario 2 on a table of one row, and the body with \<open>null\<close> for the proximity.\<close>

theorem data_invalid_body_witness:
  "map_of [(''Temp'', PInt 25), (''Humid'', PInt 40)] ''Proxy'' = None \<and>
   data env1 [row1] body_missing = ([row1], Inl (KeyError ''Proxy'')) \<and>
   http_status (snd (data env1 [row1] body_missing)) = 500 \<and>
   py_float env1 PNone = Inl TypeError \<and>
   data env1 [row1] body_null = ([row1], Inl TypeError) \<and>
   http_status (snd (data env1 [row1] body_null)) = 500"
proof -
  have m: "map_of [(''Temp'', PInt 25), (''Humid'', PInt 40)] ''Proxy'' = None" by simp
  have k: "data env1 [row1] body_missing \<noteq> ([row1], Inl (KeyError ''Temp''))"
    "data env1 [row1] body_missing \<noteq> ([row1], Inl (KeyError ''Humid''))"
    by (simp_all add: data_def py_getitem_def body_missing_def)
  have n: "map_of [(''Temp'', PInt 25), (''Humid'', PInt 40), (''Proxy'', PNone)] ''Temp'' = Some (PInt 25)"
    "map_of [(''Temp'', PInt 25), (''Humid'', PInt 40), (''Proxy'', PNone)] ''Humid'' = Some (PInt 40)"
    "map_of [(''Temp'', PInt 25), (''Humid'', PInt 40), (''Proxy'', PNone)] ''Proxy'' = Some PNone"
    by simp_all
  have f: "py_float env1 PNone = Inl TypeError" by (simp add: py_float_def)
  have t: "data env1 [row1] body_null \<noteq> ([row1], Inl ValueError)"
    "data env1 [row1] body_null \<noteq> ([row1], Inl OverflowError)"
    by (simp_all add: run_simps env1_def body_null_def)
  from data_invalid_body [of "[(''Temp'', PInt 25), (''Humid'', PInt 40)]" env1 "[row1]"
         "PInt 25" "PInt 40" PNone TypeError]
       data_invalid_body [of "[(''Temp'', PInt 25), (''Humid'', PInt 40), (''Proxy'', PNone)]" env1 "[row1]"
         "PInt 25" "PInt 40" PNone TypeError]
       m k n f t
  show ?thesis by (simp add: body_missing_def body_null_def http_status_def)
qed

text \<open>
  Claim C4, as stated, fails: scenario 2 ends in status 500, not 400; and \<open>true\<close>, which
  is no number, is taken as the reading 1 and a row is inserted.
\<close>

theorem data_missing_field_counterexample:
  "data env1 [] body_missing = ([], Inl (KeyError ''Proxy'')) \<and>
   http_status (snd (data env1 [] body_missing)) = 500 \<and>
   http_status (snd (data env1 [] body_missing)) \<noteq> 400 \<and>
   data env1 [] body_bool =
     ([row1\<lparr>Temp := 1\<rparr>],
      Inr (PDict [(''status'', PStr ''ok''), (''id'', PInt 1), (''Display'', PStr ''Mild day.''),
                  (''Sugg'', PStr ''Stay hydrated.''), (''Confid'', PInt 80)], 200))"
  by (simp add: run_simps env1_def body_missing_def body_bool_def reply1_def parsed1_def row1_def)


















section \<open>Properties of the reading store\<close>

lemma ids_descending:
  "sorted_wrt (\<ge>) (map id_col (order_by_id_desc rows))"
proof -
  have "sorted (map id_col (sort_key id_col rows))" by simp
  then have "sorted_wrt (\<ge>) (rev (map id_col (sort_key id_col rows)))"
    by (simp add: sorted_wrt_rev)
  then show ?thesis by (simp add: order_by_id_desc_def rev_map)
qed

lemma ids_strictly_descending:
  assumes "primary_key rows"
  shows "sorted_wrt (>) (map id_col (order_by_id_desc rows))"
proof -
  have "distinct (map id_col (sort_key id_col rows))"
    using assms by (simp add: primary_key_def distinct_map)
  moreover have "sorted (map id_col (sort_key id_col rows))" by simp
  ultimately have "sorted_wrt (<) (map id_col (sort_key id_col rows))"
    by (simp add: strict_sorted_iff)
  then have "sorted_wrt (>) (rev (map id_col (sort_key id_col rows)))"
    by (simp add: sorted_wrt_rev)
  then show ?thesis by (simp add: order_by_id_desc_def rev_map)
qed

lemma set_order_by_id_desc: "set (order_by_id_desc rows) = set rows"
  by (simp add: order_by_id_desc_def)

lemma listRecent_newest:
  assumes "primary_key rows" and "x \<in> set (listRecent n rows)"
    and "y \<in> set rows" and "y \<notin> set (listRecent n rows)"
  shows "id_col y < id_col x"
proof -
  let ?xs = "order_by_id_desc rows"
  have "sorted_wrt (\<lambda>a b. id_col a > id_col b) (take n ?xs @ drop n ?xs)"
    using ids_strictly_descending [OF assms(1)] by (simp add: sorted_wrt_map)
  then have "\<forall>a \<in> set (take n ?xs). \<forall>b \<in> set (drop n ?xs). id_col a > id_col b"
    unfolding sorted_wrt_append by blast
  moreover have "y \<in> set (drop n ?xs)"
  proof -
    have "set ?xs = set (take n ?xs) \<union> set (drop n ?xs)"
      by (metis append_take_drop_id set_append)
    then show ?thesis
      using assms(3,4) by (auto simp: listRecent_def set_order_by_id_desc)
  qed
  ultimately show ?thesis using assms(2) by (auto simp: listRecent_def)
qed

lemma latest_greatest:
  assumes "primary_key rows" and "rows \<noteq> []"
  shows "\<exists>r. latest rows = Some r \<and> r \<in> set rows \<and>
             (\<forall>r' \<in> set rows. r' \<noteq> r \<longrightarrow> id_col r' < id_col r)"
proof -
  have "order_by_id_desc rows \<noteq> []"
    using assms(2) set_order_by_id_desc [of rows] by (metis set_empty)
  then obtain r rs where o: "order_by_id_desc rows = r # rs"
    by (cases "order_by_id_desc rows") auto
  have "sorted_wrt (>) (map id_col (r # rs))"
    using ids_strictly_descending [OF assms(1)] o by simp
  then have g: "\<forall>x \<in> set rs. id_col x < id_col r" by auto
  have m: "set rows = insert r (set rs)"
    using set_order_by_id_desc [of rows] o by simp
  have "latest rows = Some r" using o by (simp add: latest_def)
  moreover have "r \<in> set rows" using m by simp
  moreover have "\<forall>r' \<in> set rows. r' \<noteq> r \<longrightarrow> id_col r' < id_col r" using m g by auto
  ultimately show ?thesis by blast
qed

text \<open>
  Claim C5. On every table that respects its primary key, the page's two queries give:
  at most 20 rows, in strictly descending order of id, all of them rows of the table
  and each newer than every row left out; and for \<open>latest\<close> nothing on the empty table,
  otherwise the row whose id is greater than that of every other row.
\<close>

theorem recent_readings_query:
  assumes "primary_key rows"
  shows "snd (index rows) = (latest rows, listRecent 20 rows) \<and>
         length (listRecent 20 rows) \<le> 20 \<and>
         sorted_wrt (>) (map id_col (listRecent 20 rows)) \<and>
         set (listRecent 20 rows) \<subseteq> set rows \<and>
         (\<forall>x \<in> set (listRecent 20 rows). \<forall>y \<in> set rows - set (listRecent 20 rows).
            id_col y < id_col x) \<and>
         (rows = [] \<longrightarrow> latest rows = None) \<and>
         (rows \<noteq> [] \<longrightarrow>
            (\<exists>r. latest rows = Some r \<and> r \<in> set rows \<and>
                 (\<forall>r' \<in> set rows. r' \<noteq> r \<longrightarrow> id_col r' < id_col r)))"
proof (intro conjI impI ballI)
  show "snd (index rows) = (latest rows, listRecent 20 rows)" by (simp add: index_def)
  show "length (listRecent 20 rows) \<le> 20" by (simp add: listRecent_def)
  show "sorted_wrt (>) (map id_col (listRecent 20 rows))"
    using ids_strictly_descending [OF assms]
    by (simp add: listRecent_def take_map [symmetric])
  show "set (listRecent 20 rows) \<subseteq> set rows"
    using set_take_subset [of 20 "order_by_id_desc rows"]
    by (simp add: listRecent_def set_order_by_id_desc)
next
  fix x y assume "x \<in> set (listRecent 20 rows)" and "y \<in> set rows - set (listRecent 20 rows)"
  then show "id_col y < id_col x" using listRecent_newest [OF assms] by blast
next
  assume "rows = []"
  then show "latest rows = None" by (simp add: latest_def order_by_id_desc_def)
next
  assume "rows \<noteq> []"
  then show "\<exists>r. latest rows = Some r \<and> r \<in> set rows \<and>
                 (\<forall>r' \<in> set rows. r' \<noteq> r \<longrightarrow> id_col r' < id_col r)"
    using latest_greatest [OF assms] by blast
qed

text \<open>
  A table of two rows, and the empty table.
\<close>

theorem recent_readings_query_witness:
  "primary_key [row1, row1\<lparr>id_col := 2\<rparr>] \<and>
   length (listRecent 20 [row1, row1\<lparr>id_col := 2\<rparr>]) \<le> 20 \<and>
   sorted_wrt (>) (map id_col (listRecent 20 [row1, row1\<lparr>id_col := 2\<rparr>])) \<and>
   listRecent 20 [row1, row1\<lparr>id_col := 2\<rparr>] = [row1\<lparr>id_col := 2\<rparr>, row1] \<and>
   latest [row1, row1\<lparr>id_col := 2\<rparr>] = Some (row1\<lparr>id_col := 2\<rparr>) \<and>
   primary_key [] \<and> latest [] = None"
proof -
  have k: "primary_key [row1, row1\<lparr>id_col := 2\<rparr>]" "primary_key []"
    by (simp_all add: primary_key_def row1_def)
  have l: "listRecent 20 [row1, row1\<lparr>id_col := 2\<rparr>] = [row1\<lparr>id_col := 2\<rparr>, row1]"
    by (simp add: listRecent_def order_by_id_desc_def row1_def)
  have f: "latest [row1, row1\<lparr>id_col := 2\<rparr>] = Some (row1\<lparr>id_col := 2\<rparr>)"
    by (simp add: latest_def order_by_id_desc_def row1_def)
  from recent_readings_query [OF k(1)] recent_readings_query [OF k(2)] k l f
  show ?thesis by simp
qed

section \<open>Properties of the prompt formatter\<close>

lemma markup_next_prefix:
  assumes "brace_free lit"
  shows "markup_next (lit @ rest) =
           (case markup_next rest of Inl e \<Rightarrow> Inl e | Inr (l, f, r) \<Rightarrow> Inr (lit @ l, f, r))"
proof -
  have a: "\<And>x. x \<in> set lit \<Longrightarrow> x \<noteq> CHR ''{'' \<and> x \<noteq> CHR ''}''"
    using assms by (simp add: brace_free_def list_all_iff)
  have t: "takeWhile (\<lambda>c. c \<noteq> CHR ''{'' \<and> c \<noteq> CHR ''}'') (lit @ rest) =
             lit @ takeWhile (\<lambda>c. c \<noteq> CHR ''{'' \<and> c \<noteq> CHR ''}'') rest"
    using a by (rule takeWhile_append2)
  have d: "dropWhile (\<lambda>c. c \<noteq> CHR ''{'' \<and> c \<noteq> CHR ''}'') (lit @ rest) =
             dropWhile (\<lambda>c. c \<noteq> CHR ''{'' \<and> c \<noteq> CHR ''}'') rest"
    using a by (rule dropWhile_append2)
  define r where "r = dropWhile (\<lambda>c. c \<noteq> CHR ''{'' \<and> c \<noteq> CHR ''}'') rest"
  define l where "l = takeWhile (\<lambda>c. c \<noteq> CHR ''{'' \<and> c \<noteq> CHR ''}'') rest"
  show ?thesis
    unfolding markup_next_def t d Let_def r_def [symmetric] l_def [symmetric]
    by (cases r) (auto split: list.splits sum.splits)
qed

lemma prepend_Nil: "prepend [] r = r"
  by (cases r) (simp_all add: prepend_def)

lemma vformat_literal:
  assumes "brace_free lit"
  shows "vformat render kwargs (lit @ rest) = prepend lit (vformat render kwargs rest)"
proof (cases lit)
  case Nil
  then show ?thesis by (simp add: prepend_Nil)
next
  case (Cons c cs)
  show ?thesis
  proof (cases rest)
    case Nil
    have "markup_next (lit @ []) = Inr (lit, None, [])"
      using markup_next_prefix [OF assms, of "[]"] by (simp add: markup_next_def)
    then show ?thesis using Nil Cons by (simp add: prepend_def)
  next
    case (Cons d ds)
    have "vformat render kwargs (lit @ d # ds) =
            (case markup_next (lit @ d # ds) of
               Inl e \<Rightarrow> Inl e
             | Inr (l, field, r) \<Rightarrow>
                 (case field of
                    None \<Rightarrow> prepend l (vformat render kwargs r)
                  | Some (name, conv, spec) \<Rightarrow>
                      (case get_field render kwargs name conv spec of
                         Inl e \<Rightarrow> Inl e
                       | Inr shown \<Rightarrow> prepend l (prepend shown (vformat render kwargs r)))))"
      using \<open>lit = c # cs\<close>
      by (simp add: prepend_def split: sum.splits option.splits prod.splits)
    moreover have "vformat render kwargs (d # ds) =
            (case markup_next (d # ds) of
               Inl e \<Rightarrow> Inl e
             | Inr (l, field, r) \<Rightarrow>
                 (case field of
                    None \<Rightarrow> prepend l (vformat render kwargs r)
                  | Some (name, conv, spec) \<Rightarrow>
                      (case get_field render kwargs name conv spec of
                         Inl e \<Rightarrow> Inl e
                       | Inr shown \<Rightarrow> prepend l (prepend shown (vformat render kwargs r)))))"
      by (simp add: prepend_def split: sum.splits option.splits prod.splits)
    ultimately show ?thesis
      using Cons markup_next_prefix [OF assms, of "d # ds"]
      by (simp add: prepend_def split: sum.splits option.splits prod.splits)
  qed
qed

lemma scan_name_plain:
  assumes "plain name" and "c = CHR ''}'' \<or> c = CHR '':'' \<or> c = CHR ''!''"
  shows "scan_name False acc (name @ c # cs) = Inr (rev acc @ name, c, cs)"
  using assms by (induction name arbitrary: acc) (auto simp: plain_def)

lemma scan_spec_brace_free:
  assumes "brace_free spec"
  shows "scan_spec 1 acc (spec @ CHR ''}'' # rest) = Inr (rev acc @ spec, rest)"
  using assms by (induction spec arbitrary: acc) (auto simp: brace_free_def)

lemma vformat_field:
  assumes "plain (n # ns)"
  shows "vformat render kwargs (CHR ''{'' # (n # ns) @ CHR ''}'' # rest) =
           (case get_field render kwargs (n # ns) None [] of
              Inl e \<Rightarrow> Inl e
            | Inr shown \<Rightarrow> prepend shown (vformat render kwargs rest))"
proof -
  have "n \<noteq> CHR ''{''" using assms by (simp add: plain_def)
  moreover have "parse_field ((n # ns) @ CHR ''}'' # rest) = Inr (n # ns, None, [], rest)"
    using scan_name_plain [OF assms, of "CHR ''}''" "[]" rest] by (simp add: parse_field_def)
  ultimately have "markup_next (CHR ''{'' # (n # ns) @ CHR ''}'' # rest) =
                     Inr ([], Some (n # ns, None, []), rest)"
    by (simp add: markup_next_def)
  then show ?thesis by (simp add: prepend_def split: sum.splits)
qed

lemma vformat_field_spec:
  assumes "plain (n # ns)" and "brace_free spec"
  shows "vformat render kwargs (CHR ''{'' # (n # ns) @ CHR '':'' # spec @ CHR ''}'' # rest) =
           (case get_field render kwargs (n # ns) None spec of
              Inl e \<Rightarrow> Inl e
            | Inr shown \<Rightarrow> prepend shown (vformat render kwargs rest))"
proof -
  have "n \<noteq> CHR ''{''" using assms by (simp add: plain_def)
  moreover have "parse_field ((n # ns) @ CHR '':'' # spec @ CHR ''}'' # rest) =
                   Inr (n # ns, None, spec, rest)"
    using scan_name_plain [OF assms(1), of "CHR '':''" "[]" "spec @ CHR ''}'' # rest"]
      scan_spec_brace_free [OF assms(2), of "[]" rest]
    by (simp add: parse_field_def)
  ultimately have "markup_next (CHR ''{'' # (n # ns) @ CHR '':'' # spec @ CHR ''}'' # rest) =
                     Inr ([], Some (n # ns, None, spec), rest)"
    by (simp add: markup_next_def)
  then show ?thesis by (simp add: prepend_def split: sum.splits)
qed

lemma unlines_Cons: "unlines (l # ls) = l @ CHR 0x0A # unlines ls"
  by (simp add: unlines_def)

lemma unlines_append: "unlines (xs @ ys) = unlines xs @ unlines ys"
  by (simp add: unlines_def)

lemma template_brace_free:
  "brace_free (unlines persona_lines @ (''    Temperature ('' @ [CHR 0xC2, CHR 0xB0] @ ''C): ''))"
  "brace_free (CHR 0x0A # unlines instruction_lines @ ''    '')"
  "brace_free example_1"
  by (simp_all add: brace_free_def unlines_def persona_lines_def instruction_lines_def
      example_1_def)

lemma template_format:
  "PromptTemplate_format render t h p =
     (case render t [] None [] of
        Inl e \<Rightarrow> Inl e
      | Inr a \<Rightarrow>
          (case render h [] None [] of
             Inl e \<Rightarrow> Inl e
           | Inr b \<Rightarrow>
               (case render p [] None [] of
                  Inl e \<Rightarrow> Inl e
                | Inr c \<Rightarrow> Inl (KeyError ''\"text\"''))))"
proof -
  define kw where "kw = [(''Temp'', t), (''Humid'', h), (''Proxy'', p)]"
  define A where "A = unlines persona_lines @ (''    Temperature ('' @ [CHR 0xC2, CHR 0xB0] @ ''C): '')"
  define B where "B = CHR 0x0A # (''    Humidity (%): '')"
  define C where "C = CHR 0x0A # (''    Distance/Proxy (meters): '')"
  define D where "D = CHR 0x0A # unlines instruction_lines @ ''    ''"
  define E where "E = unlines [''    '' @ ''{\"text\":'' @ example_2 @ ''}'', '''',
                               ''    Now produce JSON for the given inputs.'']"
  have shape: "PROMPT_TEMPLATE =
      A @ CHR ''{'' # ''Temp'' @ CHR ''}'' #
      B @ CHR ''{'' # ''Humid'' @ CHR ''}'' #
      C @ CHR ''{'' # ''Proxy'' @ CHR ''}'' #
      D @ CHR ''{'' # ''\"text\"'' @ CHR '':'' # example_1 @ CHR ''}'' # CHR 0x0A # E"
    by (simp add: PROMPT_TEMPLATE_def unlines_append unlines_Cons A_def B_def C_def D_def E_def)
  have bf: "brace_free A" "brace_free B" "brace_free C" "brace_free D" "brace_free example_1"
    using template_brace_free by (simp_all add: A_def B_def C_def D_def brace_free_def)
  have pl: "plain ''Temp''" "plain ''Humid''" "plain ''Proxy''" "plain ''\"text\"''"
    by (simp_all add: plain_def)
  have g: "get_field render kw ''Temp'' None [] = render t [] None []"
    "get_field render kw ''Humid'' None [] = render h [] None []"
    "get_field render kw ''Proxy'' None [] = render p [] None []"
    "get_field render kw ''\"text\"'' None example_1 = Inl (KeyError ''\"text\"'')"
    by (simp_all add: get_field_def kw_def is_decimal_def)
  have "vformat render kw PROMPT_TEMPLATE =
      prepend A (case render t [] None [] of
        Inl e \<Rightarrow> Inl e
      | Inr a \<Rightarrow> prepend a (prepend B (case render h [] None [] of
          Inl e \<Rightarrow> Inl e
        | Inr b \<Rightarrow> prepend b (prepend C (case render p [] None [] of
            Inl e \<Rightarrow> Inl e
          | Inr c \<Rightarrow> prepend c (prepend D (Inl (KeyError ''\"text\"''))))))))"
    by (simp only: shape vformat_literal [OF bf(1)] vformat_literal [OF bf(2)]
        vformat_literal [OF bf(3)] vformat_literal [OF bf(4)]
        vformat_field [OF pl(1)] vformat_field [OF pl(2)] vformat_field [OF pl(3)]
        vformat_field_spec [OF pl(4) bf(5)] g sum.case)
  then show ?thesis
    by (simp add: PromptTemplate_format_def kw_def prepend_def split: sum.splits)
qed

text \<open>
  Claim C6 against the code. With \<open>prompt.format\<close> read as Python's formatter on
  \<open>PROMPT_TEMPLATE\<close>, \<open>report\<close> raises for every triple and produces no prompt: the
  two JSON examples of the template stand in single braces, so after the three readings
  the formatter meets a replacement field named \<open>"text"\<close>, which is not among the
  keyword arguments, and raises KeyError. The call stands before the \<open>try\<close>, so the
  request handler fails with status 500 and inserts nothing.
\<close>

theorem report_prompt_not_formatted:
  assumes "prompt_format env = PromptTemplate_format render"
  shows "(\<exists>e. report env temp humid proxy = Inl e) \<and>
         (py_float env temp = Inr a \<and> py_float env humid = Inr b \<and> py_float env proxy = Inr c \<and>
          render (round2 env a) [] None [] = Inr ta \<and>
          render (round2 env b) [] None [] = Inr tb \<and>
          render (round2 env c) [] None [] = Inr tc \<longrightarrow>
            report env temp humid proxy = Inl (KeyError ''\"text\"'')) \<and>
         (py_getitem body ''Temp'' = Inr temp \<and> py_getitem body ''Humid'' = Inr humid \<and>
          py_getitem body ''Proxy'' = Inr proxy \<longrightarrow>
            (\<exists>e. data env rows body = (rows, Inl e)) \<and>
            http_status (snd (data env rows body)) = 500)"
proof -
  have f: "\<exists>e. PromptTemplate_format render x y z = Inl e" for x y z
    by (simp add: template_format split: sum.splits)
  have r: "\<exists>e. report env temp humid proxy = Inl e"
    using f [of "round2 env (projr (py_float env temp))" "round2 env (projr (py_float env humid))"
        "round2 env (projr (py_float env proxy))"]
    by (auto simp: report_def assms split: sum.splits)
  have k: "py_float env temp = Inr a \<and> py_float env humid = Inr b \<and> py_float env proxy = Inr c \<and>
          render (round2 env a) [] None [] = Inr ta \<and>
          render (round2 env b) [] None [] = Inr tb \<and>
          render (round2 env c) [] None [] = Inr tc \<longrightarrow>
            report env temp humid proxy = Inl (KeyError ''\"text\"'')"
    by (simp add: report_def assms template_format)
  have d: "py_getitem body ''Temp'' = Inr temp \<and> py_getitem body ''Humid'' = Inr humid \<and>
          py_getitem body ''Proxy'' = Inr proxy \<longrightarrow>
            (\<exists>e. data env rows body = (rows, Inl e)) \<and>
            http_status (snd (data env rows body)) = 500"
    using r by (auto simp: data_def http_status_def)
  from r k d show ?thesis by (intro conjI)
qed

text \<open>Scenario 1 with this formatter.\<close>

theorem report_prompt_not_formatted_witness:
  "prompt_format env_format = PromptTemplate_format render_stub \<and>
   report env_format (PInt 25) (PInt 40) (PInt 3) = Inl (KeyError ''\"text\"'') \<and>
   data env_format [] body1 = ([], Inl (KeyError ''\"text\"'')) \<and>
   http_status (snd (data env_format [] body1)) = 500"
proof -
  have p: "prompt_format env_format = PromptTemplate_format render_stub"
    by (simp add: env_format_def)
  have c: "py_float env_format (PInt 25) = Inr (Finite 25)"
    "py_float env_format (PInt 40) = Inr (Finite 40)"
    "py_float env_format (PInt 3) = Inr (Finite 3)"
    by (simp_all add: py_float_def env_format_def env1_def stub_env_def)
  have s: "render_stub (round2 env_format (Finite 25)) [] None [] = Inr ''25.0''"
    "render_stub (round2 env_format (Finite 40)) [] None [] = Inr ''40.0''"
    "render_stub (round2 env_format (Finite 3)) [] None [] = Inr ''3.0''"
    by (simp_all add: render_stub_def env_format_def env1_def stub_env_def)
  have b: "py_getitem body1 ''Temp'' = Inr (PInt 25)" "py_getitem body1 ''Humid'' = Inr (PInt 40)"
    "py_getitem body1 ''Proxy'' = Inr (PInt 3)"
    by (simp_all add: py_getitem_def body1_def)
  note t = report_prompt_not_formatted [OF p, of "PInt 25" "PInt 40" "PInt 3"
      "Finite 25" "Finite 40" "Finite 3" "''25.0''" "''40.0''" "''3.0''" body1 "[]"]
  from t c s have r: "report env_format (PInt 25) (PInt 40) (PInt 3) = Inl (KeyError ''\"text\"'')"
    by simp
  then have d: "data env_format [] body1 = ([], Inl (KeyError ''\"text\"''))"
    using b by (simp add: data_def)
  from p r d show ?thesis by (simp add: http_status_def)
qed

end
